theory Spec2Isabelle
  imports Main "HOL-Library.Sublist" "HOL-Library.AList" "HOL-Library.Char_ord"
    "HOL-Library.List_Lexorder" "HOL-Library.Multiset"
begin

section \<open>The notifier for new Canadian internship postings\<close>

text \<open>
  This theory embeds \<^verbatim>\<open>notify_canada_interns.py\<close>. A Python \<^verbatim>\<open>str\<close> is a
  \<^typ>\<open>string\<close>. The ASCII range behaves as in Python; a character outside ASCII is
  carried as its UTF-8 bytes, and such bytes are neither whitespace, nor word
  characters, nor cased. A Python \<^verbatim>\<open>dict\<close> is an association list with distinct
  keys in insertion order (\<^const>\<open>AList.update\<close> is Python's item assignment), and a
  Python \<^verbatim>\<open>set\<close> is a list without duplicates in some iteration order.

  The functions of \<^verbatim>\<open>bs4\<close>, \<^verbatim>\<open>html\<close>, \<^verbatim>\<open>json\<close>, \<^verbatim>\<open>requests\<close> and \<^verbatim>\<open>os\<close> are not
  code of the repository: the parsers come in as the fields of a record \<open>libs\<close>, the
  store is the JSON value the file holds, and the webhook is the outcome of each of
  its successive calls. Writing the store is taken to succeed. The regular expressions
  are part of the source and are translated into matchers.
\<close>

subsection \<open>Python string operations\<close>

definition is_space :: "char \<Rightarrow> bool" where
  \<comment> \<open>\<^verbatim>\<open>str.isspace\<close> and the class \<^verbatim>\<open>\s\<close> on ASCII: TAB, LF, VT, FF, CR, FS, GS, RS, US, space\<close>
  "is_space c = (let n = (of_char c :: nat) in (9 \<le> n \<and> n \<le> 13) \<or> (28 \<le> n \<and> n \<le> 32))"

definition is_word :: "char \<Rightarrow> bool" where
  \<comment> \<open>the class \<^verbatim>\<open>\w\<close> on ASCII: letters, digits and the underscore\<close>
  "is_word c = (let n = (of_char c :: nat) in
     (48 \<le> n \<and> n \<le> 57) \<or> (65 \<le> n \<and> n \<le> 90) \<or> n = 95 \<or> (97 \<le> n \<and> n \<le> 122))"

definition lower_char :: "char \<Rightarrow> char" where
  "lower_char c = (let n = (of_char c :: nat) in
     if 65 \<le> n \<and> n \<le> 90 then char_of (n + 32) else c)"

definition lower :: "string \<Rightarrow> string" where
  "lower s = map lower_char s"

definition lstrip_by :: "(char \<Rightarrow> bool) \<Rightarrow> string \<Rightarrow> string" where
  "lstrip_by p s = dropWhile p s"

definition rstrip_by :: "(char \<Rightarrow> bool) \<Rightarrow> string \<Rightarrow> string" where
  "rstrip_by p s = rev (dropWhile p (rev s))"

definition strip :: "string \<Rightarrow> string" where
  \<comment> \<open>\<^verbatim>\<open>s.strip()\<close>\<close>
  "strip s = rstrip_by is_space (lstrip_by is_space s)"

definition rstrip :: "string \<Rightarrow> string" where
  \<comment> \<open>\<^verbatim>\<open>s.rstrip()\<close>\<close>
  "rstrip s = rstrip_by is_space s"

definition strip_pipes :: "string \<Rightarrow> string" where
  \<comment> \<open>\<^verbatim>\<open>s.strip("|")\<close>\<close>
  "strip_pipes s = rstrip_by (\<lambda>c. c = CHR ''|'') (lstrip_by (\<lambda>c. c = CHR ''|'') s)"

fun contains :: "string \<Rightarrow> string \<Rightarrow> bool" where
  \<comment> \<open>\<^verbatim>\<open>sub in s\<close>\<close>
  "contains sub [] = (sub = [])"
| "contains sub (c # cs) = (prefix sub (c # cs) \<or> contains sub cs)"

definition endswith :: "string \<Rightarrow> string \<Rightarrow> bool" where
  \<comment> \<open>\<^verbatim>\<open>s.endswith(suf)\<close>\<close>
  "endswith s suf = suffix suf s"

fun split_on :: "char \<Rightarrow> string \<Rightarrow> string list" where
  \<comment> \<open>\<^verbatim>\<open>s.split(d)\<close> for a separator of one character\<close>
  "split_on d [] = [[]]"
| "split_on d (c # cs) =
     (if c = d then [] # split_on d cs
      else (case split_on d cs of p # ps \<Rightarrow> (c # p) # ps | [] \<Rightarrow> [[c]]))"

definition is_linebreak :: "char \<Rightarrow> bool" where
  \<comment> \<open>the line boundaries of \<^verbatim>\<open>str.splitlines\<close> on ASCII: LF, VT, FF, CR, FS, GS, RS\<close>
  "is_linebreak c = (let n = (of_char c :: nat) in (10 \<le> n \<and> n \<le> 13) \<or> (28 \<le> n \<and> n \<le> 30))"

fun splitlines_from :: "string \<Rightarrow> string \<Rightarrow> string list" where
  \<comment> \<open>the first argument is the current line, reversed; CR LF is one boundary\<close>
  "splitlines_from cur [] = (if cur = [] then [] else [rev cur])"
| "splitlines_from cur [c] = (if is_linebreak c then [rev cur] else [rev (c # cur)])"
| "splitlines_from cur (c # d # cs) =
     (if c = CHR 0x0D \<and> d = CHR 0x0A then rev cur # splitlines_from [] cs
      else if is_linebreak c then rev cur # splitlines_from [] (d # cs)
      else splitlines_from (c # cur) (d # cs))"

definition splitlines :: "string \<Rightarrow> string list" where
  \<comment> \<open>\<^verbatim>\<open>s.splitlines()\<close>\<close>
  "splitlines s = splitlines_from [] s"

fun join :: "string \<Rightarrow> string list \<Rightarrow> string" where
  \<comment> \<open>\<^verbatim>\<open>sep.join(xs)\<close>\<close>
  "join sep [] = []"
| "join sep [x] = x"
| "join sep (x # y # ys) = x @ sep @ join sep (y # ys)"

fun find_first :: "('a \<Rightarrow> bool) \<Rightarrow> 'a list \<Rightarrow> 'a option" where
  \<comment> \<open>\<^verbatim>\<open>next((x for x in xs if p(x)), None)\<close>\<close>
  "find_first p [] = None"
| "find_first p (x # xs) = (if p x then Some x else find_first p xs)"

subsection \<open>The regular expressions of the source\<close>

text \<open>
  Every pattern is used with \<^verbatim>\<open>re.search\<close> or \<^verbatim>\<open>re.match\<close>; the matcher returns
  what the leftmost match returns. Where a greedy class is followed by a character
  outside the class, only the maximal run can match, so the matcher takes it.
\<close>

definition wb_before :: "char option \<Rightarrow> bool" where
  \<comment> \<open>\<^verbatim>\<open>\b\<close> in front of a word character: the previous character is missing or not a word character\<close>
  "wb_before prev = (case prev of None \<Rightarrow> True | Some p \<Rightarrow> \<not> is_word p)"

definition wb_after :: "string \<Rightarrow> bool" where
  \<comment> \<open>\<^verbatim>\<open>\b\<close> behind a word character: the text ends or goes on with a character that is not a word character\<close>
  "wb_after rest = (case rest of [] \<Rightarrow> True | c # _ \<Rightarrow> \<not> is_word c)"

definition age_tail :: "string \<Rightarrow> bool" where
  \<comment> \<open>behind a \<^verbatim>\<open>0\<close>: \<^verbatim>\<open>\s*d\b\<close> or \<^verbatim>\<open>\s*days?\b\<close>\<close>
  "age_tail rest =
     (case dropWhile is_space rest of
        c # t \<Rightarrow> c = CHR ''d'' \<and>
          (wb_after t \<or>
           (case t of
              a # y # u \<Rightarrow> a = CHR ''a'' \<and> y = CHR ''y'' \<and>
                (wb_after u \<or> (case u of s # v \<Rightarrow> s = CHR ''s'' \<and> wb_after v | [] \<Rightarrow> False))
            | _ \<Rightarrow> False))
      | [] \<Rightarrow> False)"

fun age_search_from :: "char option \<Rightarrow> string \<Rightarrow> bool" where
  \<comment> \<open>the first argument is the character in front of the text\<close>
  "age_search_from prev [] = False"
| "age_search_from prev (c # cs) =
     ((c = CHR ''0'' \<and> wb_before prev \<and> age_tail cs) \<or> age_search_from (Some c) cs)"

definition age_search :: "string \<Rightarrow> bool" where
  \<comment> \<open>\<^verbatim>\<open>re.search(r"\b0\s*d\b|\b0\s*days?\b", s)\<close> finds a match\<close>
  "age_search s = age_search_from None s"

definition dashes :: "string \<Rightarrow> string option" where
  \<comment> \<open>\<^verbatim>\<open>\s*-+\s*\<close> at the start of the text: what is left behind it\<close>
  "dashes s =
     (let r = dropWhile is_space s in
      if r \<noteq> [] \<and> hd r = CHR ''-''
      then Some (dropWhile is_space (dropWhile (\<lambda>c. c = CHR ''-'') r))
      else None)"

function separator_groups :: "string \<Rightarrow> bool" where
  \<comment> \<open>\<^verbatim>\<open>(\|\s*-+\s*)*$\<close>\<close>
  "separator_groups [] = True"
| "separator_groups (c # cs) =
     (c = CHR ''|'' \<and> (case dashes cs of Some r \<Rightarrow> separator_groups r | None \<Rightarrow> False))"
  by pat_completeness auto
termination
proof (relation "measure length")
  fix c :: char and cs r :: string
  assume "dashes cs = Some r"
  then have "r = dropWhile is_space (dropWhile (\<lambda>c. c = CHR ''-'') (dropWhile is_space cs))"
    by (simp add: dashes_def Let_def split: if_splits)
  then have "length r \<le> length cs"
    using length_dropWhile_le[of is_space "dropWhile (\<lambda>c. c = CHR ''-'') (dropWhile is_space cs)"]
      length_dropWhile_le[of "\<lambda>c. c = CHR ''-''" "dropWhile is_space cs"]
      length_dropWhile_le[of is_space cs]
    by simp
  then show "(r, c # cs) \<in> measure length" by simp
qed simp

definition is_separator :: "string \<Rightarrow> bool" where
  \<comment> \<open>\<^verbatim>\<open>re.match(r"^\s*-+\s*(\|\s*-+\s*)*$", s)\<close> finds a match\<close>
  "is_separator s = (case dashes s of Some r \<Rightarrow> separator_groups r | None \<Rightarrow> False)"

definition match_url :: "(char \<Rightarrow> bool) \<Rightarrow> string \<Rightarrow> (string \<times> string) option" where
  \<comment> \<open>\<^verbatim>\<open>https?://C+\<close> at the start of the text, for a class \<open>C\<close>: the URL and what is left behind it\<close>
  "match_url cls s =
     (let r = (if prefix ''https://'' s then Some (''https://'', drop 8 s)
               else if prefix ''http://'' s then Some (''http://'', drop 7 s)
               else None)
      in case r of
           None \<Rightarrow> None
         | Some (scheme, t) \<Rightarrow>
             if takeWhile cls t = [] then None
             else Some (scheme @ takeWhile cls t, dropWhile cls t))"

definition md_url_char :: "char \<Rightarrow> bool" where
  \<comment> \<open>\<^verbatim>\<open>[^\s)]\<close>\<close>
  "md_url_char c = (\<not> is_space c \<and> c \<noteq> CHR '')'')"

definition md_close :: "string \<Rightarrow> string option" where
  \<comment> \<open>behind a \<^verbatim>\<open>]\<close>: \<^verbatim>\<open>\((https?://[^\s)]+)\)\<close>\<close>
  "md_close s =
     (case s of
        c # r \<Rightarrow>
          if c = CHR ''(''
          then (case match_url md_url_char r of
                  Some (u, r') \<Rightarrow> (if r' \<noteq> [] \<and> hd r' = CHR '')'' then Some u else None)
                | None \<Rightarrow> None)
          else None
      | [] \<Rightarrow> None)"

fun md_tail :: "string \<Rightarrow> string option" where
  \<comment> \<open>behind a \<^verbatim>\<open>[\<close>: the lazy \<^verbatim>\<open>.*?\<close> takes one more character other than LF whenever the rest fails here\<close>
  "md_tail [] = None"
| "md_tail (c # cs) =
     (case (if c = CHR '']'' then md_close cs else None) of
        Some u \<Rightarrow> Some u
      | None \<Rightarrow> if c = CHR 0x0A then None else md_tail cs)"

fun md_link_search :: "string \<Rightarrow> string option" where
  \<comment> \<open>group 1 of \<^verbatim>\<open>re.search(r'\[.*?\]\((https?://[^\s)]+)\)', s)\<close>\<close>
  "md_link_search [] = None"
| "md_link_search (c # cs) =
     (case (if c = CHR ''['' then md_tail cs else None) of
        Some u \<Rightarrow> Some u
      | None \<Rightarrow> md_link_search cs)"

definition is_quote :: "char \<Rightarrow> bool" where
  "is_quote c = (c = CHR 0x22 \<or> c = CHR 0x27)"

definition href_at :: "string \<Rightarrow> string option" where
  \<comment> \<open>\<^verbatim>\<open>href=["'](https?://[^"']+)["']\<close> at the start of the text\<close>
  "href_at s =
     (if prefix ''href='' s
      then (case drop 5 s of
              q # r \<Rightarrow>
                if is_quote q
                then (case match_url (\<lambda>c. \<not> is_quote c) r of
                        Some (u, r') \<Rightarrow> (if r' \<noteq> [] \<and> is_quote (hd r') then Some u else None)
                      | None \<Rightarrow> None)
                else None
            | [] \<Rightarrow> None)
      else None)"

fun href_search :: "string \<Rightarrow> string option" where
  \<comment> \<open>group 1 of \<^verbatim>\<open>re.search(r'href=["\'](https?://[^"\']+)["\']', s)\<close>\<close>
  "href_search [] = None"
| "href_search (c # cs) =
     (case href_at (c # cs) of Some u \<Rightarrow> Some u | None \<Rightarrow> href_search cs)"

definition bare_url_char :: "char \<Rightarrow> bool" where
  \<comment> \<open>\<^verbatim>\<open>[^\s\)\]]\<close>\<close>
  "bare_url_char c = (\<not> is_space c \<and> c \<noteq> CHR '')'' \<and> c \<noteq> CHR '']'')"

fun bare_url_search :: "string \<Rightarrow> string option" where
  \<comment> \<open>group 1 of \<^verbatim>\<open>re.search(r"(https?://[^\s\)\]]+)", s)\<close>\<close>
  "bare_url_search [] = None"
| "bare_url_search (c # cs) =
     (case match_url bare_url_char (c # cs) of
        Some (u, _) \<Rightarrow> Some u
      | None \<Rightarrow> bare_url_search cs)"

fun take_until_close :: "string \<Rightarrow> string option" where
  \<comment> \<open>the lazy \<^verbatim>\<open>[\s\S]*?</table>\<close>, case ignored: the text up to the end of the first closing tag\<close>
  "take_until_close [] = None"
| "take_until_close (c # cs) =
     (if prefix ''</table>'' (lower (c # cs)) then Some (take 8 (c # cs))
      else map_option ((#) c) (take_until_close cs))"

fun html_table_search :: "string \<Rightarrow> string option" where
  \<comment> \<open>group 1 of \<^verbatim>\<open>re.search(r"(<table[\s\S]*?</table>)", s, re.IGNORECASE)\<close>\<close>
  "html_table_search [] = None"
| "html_table_search (c # cs) =
     (case (if prefix ''<table'' (lower (c # cs))
            then map_option ((@) (take 6 (c # cs))) (take_until_close (drop 6 (c # cs)))
            else None) of
        Some t \<Rightarrow> Some t
      | None \<Rightarrow> html_table_search cs)"

subsection \<open>The libraries and the environment\<close>

record soup_cell =
  cell_is_th :: bool \<comment> \<open>the cell is a \<^verbatim>\<open>th\<close> element\<close>
  cell_raw :: string \<comment> \<open>\<^verbatim>\<open>str(cell)\<close>\<close>
  cell_text :: string \<comment> \<open>\<^verbatim>\<open>cell.get_text(strip=True)\<close>\<close>

record soup_table =
  th_texts :: "string list" \<comment> \<open>the texts of \<^verbatim>\<open>table.find_all("th")\<close>\<close>
  table_trs :: "soup_cell list list" \<comment> \<open>for every \<^verbatim>\<open>tr\<close> of \<^verbatim>\<open>table.find_all("tr")\<close>, its \<^verbatim>\<open>find_all(["td", "th"])\<close>\<close>

record libs =
  unescape :: "string \<Rightarrow> string" \<comment> \<open>\<^verbatim>\<open>html.unescape\<close>\<close>
  get_text :: "string \<Rightarrow> string" \<comment> \<open>\<^verbatim>\<open>BeautifulSoup(text, "lxml").get_text(strip=True)\<close>\<close>
  anchor_hrefs :: "string \<Rightarrow> string list option"
    \<comment> \<open>the \<^verbatim>\<open>href\<close> of every \<^verbatim>\<open>bs.find_all("a", href=True)\<close>; \<open>None\<close> when the parser raises\<close>
  find_table :: "string \<Rightarrow> soup_table option"
    \<comment> \<open>\<^verbatim>\<open>BeautifulSoup(fragment, "lxml").find("table")\<close>\<close>

datatype jvalue = JString string | JArray "jvalue list" | JOther

datatype store =
    Missing \<comment> \<open>no file \<^verbatim>\<open>notified.json\<close>\<close>
  | Corrupt \<comment> \<open>a file that \<^verbatim>\<open>json.load\<close> cannot read\<close>
  | Stored jvalue \<comment> \<open>a file holding this JSON value\<close>

record embed_field =
  field_name :: string
  field_value :: string
  field_inline :: bool

record message =
  title :: string
  description :: string
  url :: "string option"
  embed_fields :: "embed_field list" \<comment> \<open>the \<^verbatim>\<open>fields\<close> of the embed\<close>

datatype event =
    Sent message \<comment> \<open>\<^verbatim>\<open>send_discord_webhook\<close> returned\<close>
  | Failed message \<comment> \<open>\<^verbatim>\<open>send_discord_webhook\<close> raised\<close>
  | Saved store \<comment> \<open>\<^verbatim>\<open>save_notified\<close> wrote the file\<close>

record env =
  webhook_env :: "string option" \<comment> \<open>\<^verbatim>\<open>os.getenv("DISCORD_WEBHOOK_URL")\<close>\<close>
  fetched :: "string option" \<comment> \<open>the text \<^verbatim>\<open>fetch_readme_raw\<close> returns; \<open>None\<close> when it raises\<close>
  disk :: store \<comment> \<open>the file \<^verbatim>\<open>notified.json\<close> when the run starts\<close>
  send_ok :: "nat \<Rightarrow> bool" \<comment> \<open>whether the \<open>n\<close>-th call of the webhook in this run returns\<close>

subsection \<open>Locating the section and the table\<close>

definition find_section_markdown :: "string \<Rightarrow> string list \<Rightarrow> string option" where
  "find_section_markdown md section_heading_keywords =
     (let lines = splitlines md in
      case find_first (\<lambda>i. list_ex (\<lambda>kw. contains (lower kw) (lower (lines ! i))) section_heading_keywords)
             [0..<length lines] of
        None \<Rightarrow> None
      | Some start_idx \<Rightarrow>
          let end_idx =
            (case find_first (\<lambda>j. prefix ''#'' (lines ! j)) [start_idx + 1..<length lines] of
               Some j \<Rightarrow> j
             | None \<Rightarrow> length lines)
          in Some (join [CHR 0x0A] (take (end_idx - start_idx) (drop start_idx lines))))"

fun table_scan :: "bool \<Rightarrow> string list \<Rightarrow> string list" where
  \<comment> \<open>the loop of \<^verbatim>\<open>extract_first_markdown_table\<close>; the first argument is \<^verbatim>\<open>in_table\<close>\<close>
  "table_scan in_table [] = []"
| "table_scan in_table (line # lines) =
     (if prefix ''|'' (strip line) then rstrip line # table_scan True lines
      else if in_table then []
      else table_scan in_table lines)"

definition extract_first_markdown_table :: "string \<Rightarrow> string list option" where
  "extract_first_markdown_table section_md =
     (let table_lines = table_scan False (splitlines section_md) in
      if table_lines = [] then None else Some table_lines)"

subsection \<open>Parsing the rows\<close>

type_synonym pydict = "(string \<times> string) list"

definition dict_get :: "pydict \<Rightarrow> string \<Rightarrow> string \<Rightarrow> string" where
  \<comment> \<open>\<^verbatim>\<open>d.get(k, default)\<close>\<close>
  "dict_get d k dflt = (case map_of d k of Some v \<Rightarrow> v | None \<Rightarrow> dflt)"

definition get_opt :: "pydict \<Rightarrow> string option \<Rightarrow> string" where
  \<comment> \<open>\<^verbatim>\<open>d.get(h, "")\<close> for a header that may be \<^verbatim>\<open>None\<close>, which is no key of a row\<close>
  "get_opt d h = (case h of None \<Rightarrow> [] | Some k \<Rightarrow> dict_get d k [])"

definition pad_cells :: "nat \<Rightarrow> string list \<Rightarrow> string list" where
  \<comment> \<open>\<^verbatim>\<open>while len(cells) < n: cells.append("")\<close>\<close>
  "pad_cells n cells = cells @ replicate (n - length cells) []"

definition row_dict :: "string list \<Rightarrow> string list \<Rightarrow> pydict" where
  \<comment> \<open>\<^verbatim>\<open>{headers[i]: cells[i] for i in range(len(headers))}\<close>, for at least as many cells as headers\<close>
  "row_dict headers cells =
     foldl (\<lambda>d i. AList.update (headers ! i) (cells ! i) d) [] [0..<length headers]"

definition clean_lines :: "string list \<Rightarrow> string list" where
  "clean_lines table_lines =
     map (\<lambda>ln. strip (strip_pipes (strip ln))) (filter (\<lambda>ln. strip ln \<noteq> []) table_lines)"

definition parse_markdown_table :: "string list \<Rightarrow> pydict list" where
  "parse_markdown_table table_lines =
     (let cleaned = clean_lines table_lines in
      if length cleaned < 2 then []
      else
        let header_row = cleaned ! 0;
            data_rows = (if is_separator (cleaned ! 1) then drop 2 cleaned else drop 1 cleaned);
            headers = map strip (split_on (CHR ''|'') header_row)
        in map (\<lambda>row. row_dict headers
                  (pad_cells (length headers) (map strip (split_on (CHR ''|'') row))))
             data_rows)"

definition parse_html_table :: "libs \<Rightarrow> string \<Rightarrow> pydict list option" where
  "parse_html_table L html_fragment =
     (case find_table L html_fragment of
        None \<Rightarrow> None
      | Some table \<Rightarrow>
          (case (if th_texts table \<noteq> [] then Some (th_texts table)
                 else (case table_trs table of
                         [] \<Rightarrow> None
                       | first_tr # _ \<Rightarrow> Some (map cell_text first_tr))) of
             None \<Rightarrow> None
           | Some headers \<Rightarrow>
               let all_trs = table_trs table;
                   start_idx = (if all_trs \<noteq> [] \<and> list_ex cell_is_th (hd all_trs) then 1 else 0 :: nat)
               in Some (map (\<lambda>cells. row_dict headers
                                (map strip (pad_cells (length headers) (map cell_raw cells))))
                          (filter (\<lambda>cells. cells \<noteq> []) (drop start_idx all_trs)))))"

definition strip_html_tags :: "libs \<Rightarrow> string \<Rightarrow> string" where
  "strip_html_tags L text = get_text L text"

definition normalize_url :: "libs \<Rightarrow> string \<Rightarrow> string" where
  "normalize_url L u = strip (unescape L u)"

subsection \<open>Extracting the link of a cell\<close>

definition truthy :: "string option \<Rightarrow> bool" where
  \<comment> \<open>Python's truth value of an optional string: neither \<^verbatim>\<open>None\<close> nor empty\<close>
  "truthy a = (case a of Some x \<Rightarrow> x \<noteq> [] | None \<Rightarrow> False)"

definition py_or :: "string option \<Rightarrow> string option \<Rightarrow> string option" where
  \<comment> \<open>\<^verbatim>\<open>a or b\<close>\<close>
  "py_or a b = (if truthy a then a else b)"

definition is_absolute :: "string \<Rightarrow> bool" where
  \<comment> \<open>\<^verbatim>\<open>href and href.lower().startswith(("http://", "https://"))\<close>\<close>
  "is_absolute href = (href \<noteq> [] \<and> (prefix ''http://'' (lower href) \<or> prefix ''https://'' (lower href)))"

definition is_aggregator :: "string \<Rightarrow> bool" where
  \<comment> \<open>\<^verbatim>\<open>"simplify.jobs/p/" in href.lower()\<close>\<close>
  "is_aggregator href = contains ''simplify.jobs/p/'' (lower href)"

definition anchor_link :: "libs \<Rightarrow> string \<Rightarrow> string option" where
  \<comment> \<open>the \<^verbatim>\<open>try\<close> block of \<^verbatim>\<open>extract_link_from_cell\<close>: \<open>None\<close> when it returns nothing or raises\<close>
  "anchor_link L cell =
     (case anchor_hrefs L cell of
        None \<Rightarrow> None
      | Some anchors \<Rightarrow>
          (case find_first (\<lambda>href. is_absolute href \<and> \<not> is_aggregator href) (map strip anchors) of
             Some href \<Rightarrow> Some (normalize_url L href)
           | None \<Rightarrow>
               (case find_first is_absolute (map strip anchors) of
                  Some href \<Rightarrow> Some (normalize_url L href)
                | None \<Rightarrow> None)))"

definition extract_link_from_cell :: "libs \<Rightarrow> string \<Rightarrow> string option" where
  "extract_link_from_cell L cell_text_or_html =
     (if cell_text_or_html = [] then None
      else
        case anchor_link L cell_text_or_html of
          Some u \<Rightarrow> Some u
        | None \<Rightarrow>
            (case md_link_search cell_text_or_html of
               Some u \<Rightarrow> Some (normalize_url L u)
             | None \<Rightarrow>
                 (case href_search cell_text_or_html of
                    Some u \<Rightarrow> Some (normalize_url L (unescape L u))
                  | None \<Rightarrow>
                      (case bare_url_search cell_text_or_html of
                         Some u \<Rightarrow> Some (normalize_url L u)
                       | None \<Rightarrow> None))))"

definition location_is_canada :: "libs \<Rightarrow> string \<Rightarrow> bool" where
  "location_is_canada L location_text =
     (if location_text = [] then False
      else contains ''canada'' (lower (strip_html_tags L location_text)))"

subsection \<open>The store of notified keys\<close>

fun json_strings :: "jvalue list \<Rightarrow> string list" where
  \<comment> \<open>\<^verbatim>\<open>[x for x in data if isinstance(x, str)]\<close>\<close>
  "json_strings [] = []"
| "json_strings (JString s # xs) = s # json_strings xs"
| "json_strings (_ # xs) = json_strings xs"

definition load_notified :: "libs \<Rightarrow> store \<Rightarrow> string list" where
  "load_notified L st =
     (case st of
        Stored (JArray data) \<Rightarrow> remdups (map (normalize_url L) (json_strings data))
      | _ \<Rightarrow> [])"

definition save_notified :: "libs \<Rightarrow> string list \<Rightarrow> store" where
  \<comment> \<open>the file \<^verbatim>\<open>json.dump(sorted(list(normalize_url(x) for x in notified)), f, indent=2)\<close> leaves\<close>
  "save_notified L notified = Stored (JArray (map JString (sort (map (normalize_url L) notified))))"

definition set_add :: "string \<Rightarrow> string list \<Rightarrow> string list" where
  \<comment> \<open>\<^verbatim>\<open>s.add(x)\<close>\<close>
  "set_add x xs = (if x \<in> set xs then xs else xs @ [x])"

subsection \<open>Normalizing the rows\<close>

definition looks_like_html :: "string \<Rightarrow> bool" where
  \<comment> \<open>\<^verbatim>\<open>"<" in v and ">" in v and "href" in v\<close>\<close>
  "looks_like_html v = (contains ''<'' v \<and> contains ''>'' v \<and> contains ''href'' v)"

definition normalize_step :: "libs \<Rightarrow> pydict \<Rightarrow> string \<times> string \<Rightarrow> pydict" where
  \<comment> \<open>one pass of \<^verbatim>\<open>for k, v in r.items()\<close>\<close>
  "normalize_step L = (\<lambda>row (k, v).
     if looks_like_html v
     then AList.update k (strip_html_tags L v) (AList.update (k @ ''_raw'') v row)
     else AList.update (k @ ''_raw'') v (AList.update k (strip_html_tags L v) row))"

definition normalize_row :: "libs \<Rightarrow> pydict \<Rightarrow> pydict" where
  \<comment> \<open>the inner loop of \<^verbatim>\<open>build_normalized_rows\<close>\<close>
  "normalize_row L r = foldl (normalize_step L) [] r"

definition build_normalized_rows :: "libs \<Rightarrow> pydict list \<Rightarrow> pydict list" where
  "build_normalized_rows L raw_rows = map (normalize_row L) raw_rows"

subsection \<open>The run\<close>

record headers =
  application_header :: "string option"
  location_header :: "string option"
  company_header :: string
  role_header :: string
  age_header :: "string option"

definition choose_headers :: "pydict \<Rightarrow> headers" where
  \<comment> \<open>the five \<^verbatim>\<open>next(...)\<close> of \<^verbatim>\<open>main\<close>, on the first normalized row\<close>
  "choose_headers first_row =
     (let human_headers = filter (\<lambda>h. \<not> endswith h ''_raw'') (map fst first_row) in
      \<lparr> application_header =
          find_first (\<lambda>h. contains ''apply'' (lower h) \<or> contains ''application'' (lower h)) human_headers,
        location_header = find_first (\<lambda>h. contains ''location'' (lower h)) human_headers,
        company_header =
          (case find_first (\<lambda>h. contains ''company'' (lower h)) human_headers of
             Some h \<Rightarrow> h
           | None \<Rightarrow> if human_headers \<noteq> [] then human_headers ! 0 else ''Company''),
        role_header =
          (case find_first (\<lambda>h. contains ''role'' (lower h) \<or> contains ''position'' (lower h)) human_headers of
             Some h \<Rightarrow> h
           | None \<Rightarrow> if length human_headers > 1 then human_headers ! 1 else ''Role''),
        age_header = find_first (\<lambda>h. contains ''age'' (lower h)) human_headers \<rparr>)"

definition glyph :: string where
  \<comment> \<open>the continuation mark U+21B3, in UTF-8\<close>
  "glyph = [CHR 0xE2, CHR 0x86, CHR 0xB3]"

definition dash :: string where
  \<comment> \<open>the dash U+2014, in UTF-8\<close>
  "dash = [CHR 0xE2, CHR 0x80, CHR 0x94]"

record loop_state =
  notified :: "string list"
  newly_notified :: "string list"
  last_valid_link :: "string option"
  previous_company :: "string option"
  on_disk :: store \<comment> \<open>what \<^verbatim>\<open>notified.json\<close> holds\<close>
  calls :: nat \<comment> \<open>the calls of the webhook so far\<close>
  events :: "event list" \<comment> \<open>the calls of the webhook and the writes of the file, in order\<close>

definition age_qualifies :: "string \<Rightarrow> bool" where
  \<comment> \<open>the row is not skipped by \<^verbatim>\<open>if not age or not re.search(..., age.lower()): continue\<close>\<close>
  "age_qualifies age = (age \<noteq> [] \<and> age_search (lower age))"

definition row_qualifies :: "libs \<Rightarrow> headers \<Rightarrow> pydict \<Rightarrow> bool" where
  \<comment> \<open>the row passes both \<^verbatim>\<open>continue\<close> of the loop\<close>
  "row_qualifies L H item =
     (location_is_canada L (get_opt item (location_header H)) \<and>
      age_qualifies (get_opt item (age_header H)))"

definition current_link_of :: "libs \<Rightarrow> headers \<Rightarrow> pydict \<Rightarrow> string option" where
  \<comment> \<open>\<^verbatim>\<open>current_link\<close>: the link of the raw application cell, or else of its text\<close>
  "current_link_of L H item =
     (let app_raw_val =
            (case application_header H of
               Some h \<Rightarrow> if h \<noteq> [] then dict_get item (h @ ''_raw'') [] else []
             | None \<Rightarrow> [])
      in py_or (extract_link_from_cell L app_raw_val)
           (extract_link_from_cell L
              (dict_get item (case application_header H of Some h \<Rightarrow> h | None \<Rightarrow> []) [])))"

definition company_of :: "libs \<Rightarrow> headers \<Rightarrow> pydict \<Rightarrow> string" where
  \<comment> \<open>\<^verbatim>\<open>company_text_stripped\<close>\<close>
  "company_of L H item =
     (let company_text_raw = dict_get item (company_header H) [] in
      if company_text_raw \<noteq> [] then strip (strip_html_tags L company_text_raw) else [])"

definition effective_company :: "string \<Rightarrow> string option \<Rightarrow> string" where
  \<comment> \<open>\<^verbatim>\<open>previous_company if company_text_stripped == GLYPH and previous_company else company_text_stripped\<close>\<close>
  "effective_company company_text_stripped prev =
     (if company_text_stripped = glyph \<and> truthy prev then the prev else company_text_stripped)"

definition compose_message :: "libs \<Rightarrow> headers \<Rightarrow> pydict \<Rightarrow> string \<Rightarrow> string option \<Rightarrow> message" where
  "compose_message L H item company_display link =
     (let role_display = strip_html_tags L (dict_get item (role_header H) []);
          loc_display = strip_html_tags L (get_opt item (location_header H));
          age_display = get_opt item (age_header H);
          or_dash = (\<lambda>v. if v \<noteq> [] then v else dash)
      in \<lparr> title = ''New Canada Software Engineering Intern '' @ dash @ '' '' @
                   (if company_display \<noteq> [] then company_display else ''Unknown''),
           description = (if truthy link then ''[Click to apply]('' @ the link @ '')''
                          else ''Application link not found.''),
           url = (if truthy link then link else None),
           embed_fields =
             [\<lparr> field_name = ''Company'', field_value = or_dash company_display, field_inline = True \<rparr>,
              \<lparr> field_name = ''Role'', field_value = or_dash role_display, field_inline = True \<rparr>,
              \<lparr> field_name = ''Location'', field_value = or_dash loc_display, field_inline = True \<rparr>,
              \<lparr> field_name = ''Age'', field_value = or_dash age_display, field_inline = True \<rparr>] \<rparr>)"

record resolution =
  res_previous_company :: "string option" \<comment> \<open>\<^verbatim>\<open>previous_company\<close> behind the row\<close>
  res_last_valid_link :: "string option" \<comment> \<open>\<^verbatim>\<open>last_valid_link\<close> behind the row\<close>
  res_link :: "string option" \<comment> \<open>\<^verbatim>\<open>link\<close>\<close>
  res_key :: string \<comment> \<open>\<^verbatim>\<open>key\<close>\<close>
  res_company :: string \<comment> \<open>\<^verbatim>\<open>company_display\<close>, which is \<^verbatim>\<open>comp_for_key\<close> too\<close>

definition resolve :: "libs \<Rightarrow> headers \<Rightarrow> string option \<Rightarrow> string option \<Rightarrow> pydict \<Rightarrow> resolution" where
  \<comment> \<open>what the loop computes for a row that passed both filters, from \<^verbatim>\<open>previous_company\<close>
      and \<^verbatim>\<open>last_valid_link\<close> in front of the row\<close>
  "resolve L H previous last_valid item =
     (let current_link = current_link_of L H item;
          company_text_stripped = company_of L H item;
          is_main = (company_text_stripped \<noteq> [] \<and> company_text_stripped \<noteq> glyph);
          prev = (if is_main then Some company_text_stripped else previous);
          last = (if is_main \<and> truthy current_link then current_link else last_valid);
          link = py_or current_link last;
          key =
            (if truthy link then normalize_url L (the link)
             else
               let comp_for_key = effective_company company_text_stripped prev;
                   role_text = strip (dict_get item (role_header H) []);
                   loc_text = strip (strip_html_tags L (get_opt item (location_header H)))
               in normalize_url L (comp_for_key @ ''|'' @ role_text @ ''|'' @ loc_text))
      in \<lparr> res_previous_company = prev, res_last_valid_link = last, res_link = link,
           res_key = key, res_company = effective_company company_text_stripped prev \<rparr>)"

definition loop_body :: "libs \<Rightarrow> (nat \<Rightarrow> bool) \<Rightarrow> headers \<Rightarrow> loop_state \<Rightarrow> pydict \<Rightarrow> loop_state" where
  \<comment> \<open>one pass of \<^verbatim>\<open>for item in normalized_rows\<close>\<close>
  "loop_body L ok H st item =
     (let location = get_opt item (location_header H);
          age = get_opt item (age_header H)
      in
      if \<not> location_is_canada L location then st
      else if \<not> age_qualifies age then st
      else
        let r = resolve L H (previous_company st) (last_valid_link st) item;
            st1 = st\<lparr> previous_company := res_previous_company r,
                      last_valid_link := res_last_valid_link r \<rparr>
        in
        if res_key r \<in> set (notified st) then st1
        else
          let msg = compose_message L H item (res_company r) (res_link r) in
          if ok (calls st)
          then
            let notified' = set_add (res_key r) (notified st);
                written = save_notified L notified'
            in st1\<lparr> calls := calls st + 1,
                     notified := notified',
                     on_disk := written,
                     newly_notified := newly_notified st @ [res_key r],
                     events := events st @ [Sent msg, Saved written] \<rparr>
          else st1\<lparr> calls := calls st + 1, events := events st @ [Failed msg] \<rparr>)"

definition initial_state :: "libs \<Rightarrow> store \<Rightarrow> loop_state" where
  \<comment> \<open>the variables of \<^verbatim>\<open>main\<close> in front of the loop\<close>
  "initial_state L st =
     \<lparr> notified = load_notified L st, newly_notified = [], last_valid_link = None,
       previous_company = None, on_disk = st, calls = 0, events = [] \<rparr>"

definition run_rows :: "libs \<Rightarrow> (nat \<Rightarrow> bool) \<Rightarrow> store \<Rightarrow> pydict list \<Rightarrow> loop_state" where
  \<comment> \<open>\<^verbatim>\<open>main\<close> from \<^verbatim>\<open>build_normalized_rows\<close> on, for rows that are not empty\<close>
  "run_rows L ok st rows =
     (let normalized_rows = build_normalized_rows L rows;
          H = choose_headers (normalized_rows ! 0)
      in foldl (loop_body L ok H) (initial_state L st) normalized_rows)"

definition table_rows :: "libs \<Rightarrow> string \<Rightarrow> string \<Rightarrow> pydict list" where
  \<comment> \<open>the rows \<^verbatim>\<open>main\<close> finds: the pipe table of the section, or else an HTML table of the
      section, or else the first HTML table of the document\<close>
  "table_rows L md section =
     (case extract_first_markdown_table section of
        Some table_lines \<Rightarrow> parse_markdown_table table_lines
      | None \<Rightarrow>
          (case parse_html_table L section of
             Some (r # rs) \<Rightarrow> r # rs
           | _ \<Rightarrow>
               (case html_table_search md of
                  Some m \<Rightarrow>
                    (case parse_html_table L m of
                       Some (r # rs) \<Rightarrow> r # rs
                     | _ \<Rightarrow> [])
                | None \<Rightarrow> [])))"

datatype status =
    Exit nat \<comment> \<open>\<^verbatim>\<open>sys.exit(n)\<close>\<close>
  | Raised \<comment> \<open>an exception left \<^verbatim>\<open>main\<close>\<close>
  | Returned

record run =
  status_of :: status
  file_after :: store
  events_of :: "event list"

definition main :: "libs \<Rightarrow> env \<Rightarrow> run" where
  "main L e =
     (let stop = (\<lambda>s. \<lparr> status_of = s, file_after = disk e, events_of = [] \<rparr>) in
      if \<not> truthy (webhook_env e) then stop (Exit 2)
      else
        case fetched e of
          None \<Rightarrow> stop Raised
        | Some md \<Rightarrow>
            (case find_section_markdown md
                    [''Software Engineering Internship Roles'', ''Software Engineering''] of
               None \<Rightarrow> stop (Exit 1)
             | Some section \<Rightarrow>
                 if section = [] then stop (Exit 1)
                 else
                   let rows = table_rows L md section in
                   if rows = [] then stop (Exit 0)
                   else
                     let st = run_rows L (send_ok e) (disk e) rows
                     in \<lparr> status_of = Returned, file_after = on_disk st, events_of = events st \<rparr>))"

definition dispatched :: "event list \<Rightarrow> message list" where
  \<comment> \<open>the messages the webhook accepted\<close>
  "dispatched evs = concat (map (\<lambda>ev. case ev of Sent m \<Rightarrow> [m] | _ \<Rightarrow> []) evs)"

definition saves :: "event list \<Rightarrow> store list" where
  \<comment> \<open>what the writes of the file left\<close>
  "saves evs = concat (map (\<lambda>ev. case ev of Saved s \<Rightarrow> [s] | _ \<Rightarrow> []) evs)"

definition settled :: "libs \<Rightarrow> store \<Rightarrow> loop_state \<Rightarrow> bool" where
  \<comment> \<open>every accepted message was followed by a write, and the file holds the set as of the
      last accepted message; when none was accepted, the file and the set are as at the start\<close>
  "settled L d st =
     (length (saves (events st)) = length (dispatched (events st)) \<and>
      (if dispatched (events st) = [] then on_disk st = d \<and> notified st = load_notified L d
       else on_disk st = save_notified L (notified st)))"

definition attempted :: "event list \<Rightarrow> message list" where
  \<comment> \<open>the messages handed to the webhook\<close>
  "attempted evs = concat (map (\<lambda>ev. case ev of Sent m \<Rightarrow> [m] | Failed m \<Rightarrow> [m] | _ \<Rightarrow> []) evs)"

definition found_rows :: "libs \<Rightarrow> string \<Rightarrow> pydict list" where
  \<comment> \<open>the rows of the table that a run over this document extracts\<close>
  "found_rows L md =
     (case find_section_markdown md
             [''Software Engineering Internship Roles'', ''Software Engineering''] of
        None \<Rightarrow> []
      | Some section \<Rightarrow> if section = [] then [] else table_rows L md section)"

fun row_keys :: "libs \<Rightarrow> headers \<Rightarrow> string option \<Rightarrow> string option \<Rightarrow> pydict list \<Rightarrow> string list" where
  \<comment> \<open>the keys of the rows that pass the filters, in order; they do not depend on the set\<close>
  "row_keys L H previous last_valid [] = []"
| "row_keys L H previous last_valid (item # items) =
     (if row_qualifies L H item
      then res_key (resolve L H previous last_valid item) #
           row_keys L H (res_previous_company (resolve L H previous last_valid item))
             (res_last_valid_link (resolve L H previous last_valid item)) items
      else row_keys L H previous last_valid items)"

definition table_keys :: "libs \<Rightarrow> pydict list \<Rightarrow> string list" where
  \<comment> \<open>the keys of the postings of a table\<close>
  "table_keys L rows =
     row_keys L (choose_headers (build_normalized_rows L rows ! 0)) None None
       (build_normalized_rows L rows)"

subsection \<open>The libraries on text without markup\<close>

text \<open>
  For the runs evaluated below, the parameters are set to what the libraries do on a text
  that has no \<^verbatim>\<open><\<close> and no character reference other than \<^verbatim>\<open>&amp;\<close>:
  \<^verbatim>\<open>html.unescape\<close> replaces every \<^verbatim>\<open>&amp;\<close> by \<^verbatim>\<open>&\<close> in one pass from the left, the
  text of the parsed fragment is the unescaped text without the surrounding whitespace,
  and the parser finds no anchor and no table.
\<close>

fun unescape_amp :: "string \<Rightarrow> string" where
  "unescape_amp [] = []"
| "unescape_amp (c # cs) =
     (if prefix ''&amp;'' (c # cs) then CHR ''&'' # unescape_amp (drop 4 cs)
      else c # unescape_amp cs)"

definition plain_libs :: libs where
  "plain_libs =
     \<lparr> unescape = unescape_amp,
       get_text = (\<lambda>s. strip (unescape_amp s)),
       anchor_hrefs = (\<lambda>s. Some []),
       find_table = (\<lambda>s. None) \<rparr>"

definition lines_text :: "string list \<Rightarrow> string" where
  \<comment> \<open>a text of these lines, each ended by LF\<close>
  "lines_text ls = concat (map (\<lambda>l. l @ [CHR 0x0A]) ls)"

subsection \<open>The statements of the specification\<close>















definition has_header :: "string \<Rightarrow> pydict list \<Rightarrow> bool" where
  \<comment> \<open>a header of the table, which are the keys of its first row, holds the word, in any case\<close>
  "has_header w rows = list_ex (\<lambda>k. contains w (lower k)) (map fst (rows ! 0))"

definition raw_key :: "string \<Rightarrow> string" where
  "raw_key k = k @ ''_raw''"

definition keys :: "pydict \<Rightarrow> string list" where
  \<comment> \<open>\<^verbatim>\<open>list(d.keys())\<close>\<close>
  "keys d = map fst d"


subsection \<open>Inputs of the examples\<close>






definition acme_row :: pydict where
  "acme_row =
     [(''Company'', ''Acme''), (''Role'', ''SWE Intern''), (''Location'', ''Toronto, Canada''),
      (''Application'', ''[Apply](https://acme.example/jobs/1)''), (''Age'', ''0d'')]"

definition acme_item :: pydict where
  "acme_item = normalize_row plain_libs acme_row"

definition acme_headers :: headers where
  "acme_headers = choose_headers acme_item"

definition undated_row :: pydict where
  \<comment> \<open>a row of a table without a column for the age\<close>
  "undated_row =
     [(''Company'', ''Acme''), (''Role'', ''SWE Intern''), (''Location'', ''Toronto, Canada''),
      (''Application'', ''[Apply](https://acme.example/jobs/1)'')]"

definition heading :: string where
  "heading = ''## Software Engineering Internship Roles''"

definition undated_doc :: string where
  "undated_doc =
     lines_text
       [heading,
        ''| Company | Role | Location | Application |'',
        ''| --- | --- | --- | --- |'',
        ''| Acme | SWE Intern | Toronto, Canada | [Apply](https://acme.example/jobs/1) |'']"

definition run_env :: "string \<Rightarrow> store \<Rightarrow> env" where
  \<comment> \<open>a run over this document and this file, with a webhook that accepts every message\<close>
  "run_env md d =
     \<lparr> webhook_env = Some ''https://discord.example/hook'', fetched = Some md, disk = d,
       send_ok = (\<lambda>n. True) \<rparr>"

definition table_head :: "string list" where
  "table_head =
     [heading, ''| Company | Role | Location | Application | Age |'',
      ''| --- | --- | --- | --- | --- |'']"

definition orphan_doc :: string where
  \<comment> \<open>a posting in New York and, on a continuation row, the same posting in Toronto\<close>
  "orphan_doc =
     lines_text
       (table_head @
        [''| Globex | SWE Intern | New York, NY | [Apply](https://globex.example/jobs/2) | 0d |'',
         ''| '' @ glyph @ '' | SWE Intern | Toronto, Canada | | 0d |''])"

definition linkless_doc :: string where
  \<comment> \<open>a posting with a link and, behind it, another company's posting without a link\<close>
  "linkless_doc =
     lines_text
       (table_head @
        [''| Acme | SWE Intern | Toronto, Canada | [Apply](https://acme.example/jobs/1) | 0d |'',
         ''| Initech | QA Intern | Ottawa, Canada | Closed | 0d |''])"

definition escaped_doc :: string where
  \<comment> \<open>a posting whose link has an ampersand escaped three times\<close>
  "escaped_doc =
     lines_text
       (table_head @
        [''| Acme | SWE Intern | Toronto, Canada | [Apply](https://acme.example/j?a=1&amp;amp;amp;b=2) | 0d |''])"

definition initech_row :: pydict where
  "initech_row =
     [(''Company'', ''Initech''), (''Role'', ''QA Intern''), (''Location'', ''Ottawa, Canada''),
      (''Application'', ''Closed''), (''Age'', ''0d'')]"

definition globex_row :: pydict where
  "globex_row =
     [(''Company'', ''Globex''), (''Role'', ''SWE Intern''), (''Location'', ''New York, NY''),
      (''Application'', ''[Apply](https://globex.example/jobs/2)''), (''Age'', ''0d'')]"

definition toronto_row :: pydict where
  \<comment> \<open>a continuation row without a link\<close>
  "toronto_row =
     [(''Company'', glyph), (''Role'', ''SWE Intern''), (''Location'', ''Toronto, Canada''),
      (''Application'', []), (''Age'', ''0d'')]"

definition posting :: "string \<Rightarrow> string \<Rightarrow> string \<Rightarrow> string option \<Rightarrow> message" where
  \<comment> \<open>the message for a posting of age \<^verbatim>\<open>0d\<close>\<close>
  "posting company role location link =
     \<lparr> title = ''New Canada Software Engineering Intern '' @ dash @ '' '' @ company,
       description = (case link of Some u \<Rightarrow> ''[Click to apply]('' @ u @ '')''
                      | None \<Rightarrow> ''Application link not found.''),
       url = link,
       embed_fields =
         [\<lparr> field_name = ''Company'', field_value = company, field_inline = True \<rparr>,
          \<lparr> field_name = ''Role'', field_value = role, field_inline = True \<rparr>,
          \<lparr> field_name = ''Location'', field_value = location, field_inline = True \<rparr>,
          \<lparr> field_name = ''Age'', field_value = ''0d'', field_inline = True \<rparr>] \<rparr>"

section \<open>Properties\<close>

subsection \<open>The age filter\<close>






subsection \<open>The link of a cell\<close>










lemma find_first_None: "find_first p xs = None \<longleftrightarrow> (\<forall>x\<in>set xs. \<not> p x)"
  by (induction xs) auto





lemma skip_unless_qualifies:
  "\<not> row_qualifies L H item \<Longrightarrow> loop_body L ok H st item = st"
  by (auto simp: loop_body_def row_qualifies_def Let_def)





subsection \<open>The keys of a normalized row\<close>

lemma keys_update: "set (keys (AList.update k v al)) = insert k (set (keys al))"
  using AList.dom_update[of k v al] by (simp add: keys_def)

lemma distinct_keys_update: "distinct (keys al) \<Longrightarrow> distinct (keys (AList.update k v al))"
  by (simp add: keys_def AList.distinct_update)

lemma keys_normalize_step:
  "set (keys (normalize_step L row (k, v))) = insert k (insert (raw_key k) (set (keys row)))"
  by (auto simp: normalize_step_def keys_update raw_key_def)

lemma distinct_normalize_step:
  "distinct (keys row) \<Longrightarrow> distinct (keys (normalize_step L row kv))"
  by (cases kv) (simp add: normalize_step_def distinct_keys_update)

lemma keys_foldl_normalize_step:
  "set (keys (foldl (normalize_step L) acc r)) =
     set (keys acc) \<union> set (keys r) \<union> raw_key ` set (keys r)"
proof (induction r arbitrary: acc)
  case Nil
  then show ?case by (simp add: keys_def)
next
  case (Cons kv r)
  obtain k v where kv: "kv = (k, v)" by (cases kv)
  have "set (keys (kv # r)) = insert k (set (keys r))" by (simp add: keys_def kv)
  then show ?case
    unfolding foldl_Cons Cons.IH kv keys_normalize_step by auto
qed

lemma distinct_foldl_normalize_step:
  "distinct (keys acc) \<Longrightarrow> distinct (keys (foldl (normalize_step L) acc r))"
  by (induction r arbitrary: acc) (simp_all add: distinct_normalize_step)

lemma normalize_row_foldl: "normalize_row L r = foldl (normalize_step L) [] r"
  by (simp add: normalize_row_def)

lemma keys_normalize_row:
  "set (keys (normalize_row L r)) = set (keys r) \<union> raw_key ` set (keys r)"
  unfolding normalize_row_foldl keys_foldl_normalize_step by (simp add: keys_def)

lemma distinct_keys_normalize_row: "distinct (keys (normalize_row L r))"
  unfolding normalize_row_foldl by (rule distinct_foldl_normalize_step) (simp add: keys_def)

lemma inj_raw_key: "inj raw_key"
  by (simp add: inj_def raw_key_def)

lemma length_normalize_row:
  assumes "distinct (keys r)" and "\<forall>k\<in>set (keys r). raw_key k \<notin> set (keys r)"
  shows "length (normalize_row L r) = 2 * length r"
proof -
  have "length (normalize_row L r) = length (keys (normalize_row L r))"
    by (simp add: keys_def)
  also have "\<dots> = card (set (keys (normalize_row L r)))"
    using distinct_keys_normalize_row by (simp add: distinct_card)
  also have "\<dots> = card (set (keys r) \<union> raw_key ` set (keys r))"
    by (simp add: keys_normalize_row)
  also have "\<dots> = card (set (keys r)) + card (raw_key ` set (keys r))"
    using assms(2) by (intro card_Un_disjoint) auto
  also have "card (raw_key ` set (keys r)) = card (set (keys r))"
    by (rule card_image) (rule inj_on_subset[OF inj_raw_key subset_UNIV])
  also have "card (set (keys r)) = length r"
    using assms(1) distinct_card[of "keys r"] by (simp add: keys_def)
  finally show ?thesis by simp
qed

text \<open>
  Claim C7, as the specification states it, fails on a row that has a key and the same
  key followed by \<^verbatim>\<open>_raw\<close>: the raw variant of the first is the second, and the
  normalized row has three keys, not four.
\<close>

theorem normalized_keys_counterexample:
  "distinct (keys [(''Link'', ''a''), (''Link_raw'', ''b'')]) \<and>
   keys (normalize_row plain_libs [(''Link'', ''a''), (''Link_raw'', ''b'')]) =
     [''Link'', ''Link_raw'', ''Link_raw_raw''] \<and>
   length (keys (normalize_row plain_libs [(''Link'', ''a''), (''Link_raw'', ''b'')])) \<noteq>
     2 * length (keys [(''Link'', ''a''), (''Link_raw'', ''b'')])"
  by code_simp

text \<open>
  Claim C7, amended. For every row, the keys of the normalized row are the keys of the
  row together with every key followed by \<^verbatim>\<open>_raw\<close>, each once. The normalized row has
  exactly twice as many keys as the row whenever no key of the row is another key of the
  row followed by \<^verbatim>\<open>_raw\<close>. \<^const>\<open>build_normalized_rows\<close> normalizes every row.
\<close>

theorem normalized_keys:
  "set (keys (normalize_row L r)) = set (keys r) \<union> raw_key ` set (keys r) \<and>
   distinct (keys (normalize_row L r)) \<and>
   (distinct (keys r) \<and> (\<forall>k\<in>set (keys r). raw_key k \<notin> set (keys r)) \<longrightarrow>
      length (keys (normalize_row L r)) = 2 * length (keys r)) \<and>
   build_normalized_rows L rows = map (normalize_row L) rows"
  using keys_normalize_row distinct_keys_normalize_row length_normalize_row[of r L]
  by (simp add: keys_def build_normalized_rows_def)

theorem normalized_keys_witness:
  "distinct (keys [(''Company'', ''Acme''), (''Role'', ''SWE Intern'')]) \<and>
   length (keys (normalize_row plain_libs [(''Company'', ''Acme''), (''Role'', ''SWE Intern'')])) = 4"
proof -
  have h: "distinct (keys [(''Company'', ''Acme''), (''Role'', ''SWE Intern'')]) \<and>
      (\<forall>k\<in>set (keys [(''Company'', ''Acme''), (''Role'', ''SWE Intern'')]).
         raw_key k \<notin> set (keys [(''Company'', ''Acme''), (''Role'', ''SWE Intern'')]))"
    by (simp add: keys_def raw_key_def)
  have "length (keys (normalize_row plain_libs [(''Company'', ''Acme''), (''Role'', ''SWE Intern'')])) =
      2 * length (keys [(''Company'', ''Acme''), (''Role'', ''SWE Intern'')])"
    using h normalized_keys[of plain_libs "[(''Company'', ''Acme''), (''Role'', ''SWE Intern'')]"]
    by blast
  with h show ?thesis by (simp add: keys_def)
qed

subsection \<open>The rows of a pipe table\<close>


















text \<open>The rows of a pipe table have distinct keys, as every \<^verbatim>\<open>dict\<close> has.\<close>

lemma distinct_keys_row_dict: "distinct (keys (row_dict hs cs))"
proof -
  have "distinct (keys (foldl (\<lambda>d i. AList.update (hs ! i) (cs ! i) d) acc is))"
    if "distinct (keys acc)" for acc "is"
    using that by (induction "is" arbitrary: acc) (simp_all add: distinct_keys_update)
  then show ?thesis by (simp add: row_dict_def keys_def)
qed

lemma distinct_keys_parse_markdown_table:
  "r \<in> set (parse_markdown_table ls) \<Longrightarrow> distinct (keys r)"
  by (auto simp: parse_markdown_table_def Let_def distinct_keys_row_dict split: if_splits)

subsection \<open>The store of notified keys\<close>

lemma json_strings_map: "json_strings (map JString xs) = xs"
  by (induction xs) simp_all

lemma load_save:
  "set (load_notified L (save_notified L S)) = normalize_url L ` normalize_url L ` set S"
  by (simp add: load_notified_def save_notified_def json_strings_map)

lemma load_save_idem:
  assumes "\<forall>x\<in>set S. normalize_url L (normalize_url L x) = normalize_url L x"
  shows "set (load_notified L (save_notified L S)) = normalize_url L ` set S"
  unfolding load_save using assms by (auto simp: image_iff)

lemma distinct_load: "distinct (load_notified L st)"
  by (simp add: load_notified_def split: store.splits jvalue.splits)

lemma save_sorted:
  "\<exists>zs. save_notified L S = Stored (JArray (map JString zs)) \<and> sorted zs \<and>
     set zs = normalize_url L ` set S \<and> length zs = length S"
  by (intro exI[of _ "sort (map (normalize_url L) S)"]) (simp add: save_notified_def)

lemma save_deterministic:
  assumes "distinct S" "distinct S'" "set S = set S'"
  shows "save_notified L S = save_notified L S'"
proof -
  have "mset S = mset S'" using assms by (simp add: set_eq_iff_mset_eq_distinct)
  then have "mset (map (normalize_url L) S) = mset (map (normalize_url L) S')" by simp
  then have "sort (map (normalize_url L) S) = sort (map (normalize_url L) S')"
    by (intro properties_for_sort) simp_all
  then show ?thesis by (simp add: save_notified_def)
qed

text \<open>
  Claim C8, as the specification states it, fails on a key that is escaped more than
  once: \<^const>\<open>save_notified\<close> and \<^const>\<open>load_notified\<close> both normalize, and unescaping is
  not idempotent. The set loaded after saving is neither the normalized set, nor equal to
  it after another normalization.
\<close>

theorem store_round_trip_counterexample:
  "load_notified plain_libs (save_notified plain_libs [''a&amp;amp;amp;b'']) = [''a&amp;b''] \<and>
   map (normalize_url plain_libs) [''a&amp;amp;amp;b''] = [''a&amp;amp;b''] \<and>
   set (load_notified plain_libs (save_notified plain_libs [''a&amp;amp;amp;b''])) \<noteq>
     normalize_url plain_libs ` set [''a&amp;amp;amp;b''] \<and>
   normalize_url plain_libs `
     set (load_notified plain_libs (save_notified plain_libs [''a&amp;amp;amp;b''])) \<noteq>
     normalize_url plain_libs ` set [''a&amp;amp;amp;b'']"
proof -
  have l: "load_notified plain_libs (save_notified plain_libs [''a&amp;amp;amp;b'']) = [''a&amp;b'']"
    by code_simp
  have n: "normalize_url plain_libs ''a&amp;amp;amp;b'' = ''a&amp;amp;b''" by code_simp
  have m: "normalize_url plain_libs ''a&amp;b'' = ''a&b''" by code_simp
  show ?thesis unfolding l by (simp add: n m)
qed

text \<open>
  Claim C8, amended. Loading the store right after saving a set yields the set of its
  members normalized twice, which is the normalized set whenever normalizing a normalized
  member changes nothing. Loading a missing or unreadable store, or one that holds no
  list, yields the empty set. Saving writes the normalized members in ascending order,
  one entry for each member, and two sets with the same members leave the same file.
\<close>

theorem store_round_trip:
  "set (load_notified L (save_notified L S)) = normalize_url L ` normalize_url L ` set S \<and>
   ((\<forall>x\<in>set S. normalize_url L (normalize_url L x) = normalize_url L x) \<longrightarrow>
      set (load_notified L (save_notified L S)) = normalize_url L ` set S) \<and>
   load_notified L Missing = [] \<and> load_notified L Corrupt = [] \<and>
   load_notified L (Stored (JString s)) = [] \<and> load_notified L (Stored JOther) = [] \<and>
   distinct (load_notified L st) \<and>
   (\<exists>zs. save_notified L S = Stored (JArray (map JString zs)) \<and> sorted zs \<and>
      set zs = normalize_url L ` set S \<and> length zs = length S) \<and>
   (distinct S \<and> distinct S' \<and> set S = set S' \<longrightarrow> save_notified L S = save_notified L S')"
  using load_save[of L S] load_save_idem[of S L] distinct_load[of L st] save_sorted[of L S]
    save_deterministic[of S S' L]
  by (simp add: load_notified_def)

theorem store_round_trip_witness:
  "set (load_notified plain_libs (save_notified plain_libs [''b&amp;c'', '' a ''])) = {''a'', ''b&c''} \<and>
   save_notified plain_libs [''b&amp;c'', '' a ''] = save_notified plain_libs ['' a '', ''b&amp;c''] \<and>
   save_notified plain_libs [''b&amp;c'', '' a ''] = Stored (JArray [JString ''a'', JString ''b&c''])"
proof -
  have i: "\<forall>x\<in>set [''b&amp;c'', '' a ''].
      normalize_url plain_libs (normalize_url plain_libs x) = normalize_url plain_libs x"
    by code_simp
  have d: "distinct [''b&amp;c'', '' a ''] \<and> distinct ['' a '', ''b&amp;c''] \<and>
      set [''b&amp;c'', '' a ''] = set ['' a '', ''b&amp;c'']"
    by auto
  note t = store_round_trip[of plain_libs "[''b&amp;c'', '' a '']" _ _ "['' a '', ''b&amp;c'']"]
  have "set (load_notified plain_libs (save_notified plain_libs [''b&amp;c'', '' a ''])) =
      normalize_url plain_libs ` set [''b&amp;c'', '' a '']"
    using t i by blast
  moreover have "normalize_url plain_libs ''b&amp;c'' = ''b&c''" by code_simp
  moreover have "normalize_url plain_libs '' a '' = ''a''" by code_simp
  moreover have "save_notified plain_libs [''b&amp;c'', '' a ''] =
      save_notified plain_libs ['' a '', ''b&amp;c'']"
    using t d by blast
  moreover have "save_notified plain_libs [''b&amp;c'', '' a ''] =
      Stored (JArray [JString ''a'', JString ''b&c''])"
    by code_simp
  ultimately show ?thesis by auto
qed

subsection \<open>One pass of the loop\<close>

lemma loop_body_notified:
  assumes "row_qualifies L H item"
    and "res_key (resolve L H (previous_company st) (last_valid_link st) item) \<in> set (notified st)"
  shows "notified (loop_body L ok H st item) = notified st"
    and "on_disk (loop_body L ok H st item) = on_disk st"
    and "events (loop_body L ok H st item) = events st"
  using assms by (simp_all add: loop_body_def row_qualifies_def Let_def)

lemma loop_body_sent:
  assumes "row_qualifies L H item"
    and "res_key (resolve L H (previous_company st) (last_valid_link st) item) \<notin> set (notified st)"
    and "ok (calls st)"
  shows "notified (loop_body L ok H st item) =
      set_add (res_key (resolve L H (previous_company st) (last_valid_link st) item)) (notified st)"
    and "on_disk (loop_body L ok H st item) = save_notified L (notified (loop_body L ok H st item))"
    and "events (loop_body L ok H st item) =
      events st @
      [Sent (compose_message L H item
               (res_company (resolve L H (previous_company st) (last_valid_link st) item))
               (res_link (resolve L H (previous_company st) (last_valid_link st) item))),
       Saved (on_disk (loop_body L ok H st item))]"
  using assms by (simp_all add: loop_body_def row_qualifies_def Let_def)

lemma loop_body_failed:
  assumes "row_qualifies L H item"
    and "res_key (resolve L H (previous_company st) (last_valid_link st) item) \<notin> set (notified st)"
    and "\<not> ok (calls st)"
  shows "notified (loop_body L ok H st item) = notified st"
    and "on_disk (loop_body L ok H st item) = on_disk st"
    and "events (loop_body L ok H st item) =
      events st @
      [Failed (compose_message L H item
               (res_company (resolve L H (previous_company st) (last_valid_link st) item))
               (res_link (resolve L H (previous_company st) (last_valid_link st) item)))]"
  using assms by (simp_all add: loop_body_def row_qualifies_def Let_def)

lemma set_set_add: "set (set_add x xs) = insert x (set xs)"
  by (auto simp: set_add_def)

lemma distinct_set_add: "distinct xs \<Longrightarrow> distinct (set_add x xs)"
  by (simp add: set_add_def)

lemma loop_body_cases:
  obtains (skipped) "\<not> row_qualifies L H item" "loop_body L ok H st item = st"
  | (known) "row_qualifies L H item"
      "res_key (resolve L H (previous_company st) (last_valid_link st) item) \<in> set (notified st)"
  | (sent) "row_qualifies L H item"
      "res_key (resolve L H (previous_company st) (last_valid_link st) item) \<notin> set (notified st)"
      "ok (calls st)"
  | (failed) "row_qualifies L H item"
      "res_key (resolve L H (previous_company st) (last_valid_link st) item) \<notin> set (notified st)"
      "\<not> ok (calls st)"
  using skip_unless_qualifies[of L H item ok st] by blast

lemma loop_body_mono: "set (notified st) \<subseteq> set (notified (loop_body L ok H st item))"
proof (cases rule: loop_body_cases[of L H item ok st])
  case skipped
  then show ?thesis by simp
next
  case known
  then show ?thesis by (simp add: loop_body_notified)
next
  case sent
  show ?thesis
    unfolding loop_body_sent(1)[of L H item st ok, OF sent] by (auto simp: set_set_add)
next
  case failed
  show ?thesis
    unfolding loop_body_failed(1)[of L H item st ok, OF failed] by simp
qed

lemma loop_mono: "set (notified st) \<subseteq> set (notified (foldl (loop_body L ok H) st items))"
proof (induction items arbitrary: st)
  case Nil
  then show ?case by simp
next
  case (Cons item items)
  have "set (notified st) \<subseteq> set (notified (loop_body L ok H st item))"
    by (rule loop_body_mono)
  also have "\<dots> \<subseteq> set (notified (foldl (loop_body L ok H) (loop_body L ok H st item) items))"
    by (rule Cons.IH)
  finally show ?case by simp
qed

lemma settled_loop_body: "settled L d st \<Longrightarrow> settled L d (loop_body L ok H st item)"
proof (cases rule: loop_body_cases[of L H item ok st])
  case skipped
  assume "settled L d st"
  with skipped show ?thesis by simp
next
  case known
  note k = loop_body_notified[of L H item st ok, OF known]
  assume "settled L d st"
  then show ?thesis unfolding settled_def k .
next
  case sent
  note s = loop_body_sent[of L H item st ok, OF sent]
  assume "settled L d st"
  then show ?thesis
    unfolding settled_def s(3) s(2)[symmetric]
    by (simp add: saves_def dispatched_def)
next
  case failed
  note f = loop_body_failed[of L H item st ok, OF failed]
  assume "settled L d st"
  then show ?thesis
    unfolding settled_def f
    by (simp add: saves_def dispatched_def)
qed

lemma settled_loop: "settled L d st \<Longrightarrow> settled L d (foldl (loop_body L ok H) st items)"
  by (induction items arbitrary: st) (simp_all add: settled_loop_body)

lemma settled_initial: "settled L d (initial_state L d)"
  by (simp add: settled_def initial_state_def saves_def dispatched_def)

lemma settled_run_rows: "settled L d (run_rows L ok d rows)"
  unfolding run_rows_def Let_def by (intro settled_loop settled_initial)




subsection \<open>Tables without a column for the location or the age\<close>

lemma endswith_raw_key: "endswith (raw_key k) ''_raw''"
  by (simp add: endswith_def raw_key_def suffix_def)

lemma human_header_is_key:
  assumes "h \<in> set (keys (normalize_row L r))" "\<not> endswith h ''_raw''"
  shows "h \<in> set (keys r)"
  using assms endswith_raw_key unfolding keys_normalize_row by auto

lemma find_human_header_None:
  assumes "\<forall>k\<in>set (keys r). \<not> p k"
  shows "find_first p (filter (\<lambda>h. \<not> endswith h ''_raw'') (keys (normalize_row L r))) = None"
  unfolding find_first_None using assms human_header_is_key[of _ L r] by auto

lemma no_location_header:
  assumes "\<forall>k\<in>set (keys r). \<not> contains ''location'' (lower k)"
  shows "location_header (choose_headers (normalize_row L r)) = None"
  using find_human_header_None[OF assms, of L]
  by (simp add: choose_headers_def keys_def Let_def)

lemma no_age_header:
  assumes "\<forall>k\<in>set (keys r). \<not> contains ''age'' (lower k)"
  shows "age_header (choose_headers (normalize_row L r)) = None"
  using find_human_header_None[OF assms, of L]
  by (simp add: choose_headers_def keys_def Let_def)

lemma no_location_no_row: "location_header H = None \<Longrightarrow> \<not> row_qualifies L H item"
  by (simp add: row_qualifies_def get_opt_def location_is_canada_def)

lemma no_age_no_row: "age_header H = None \<Longrightarrow> \<not> row_qualifies L H item"
  by (simp add: row_qualifies_def get_opt_def age_qualifies_def)

lemma loop_skips_all:
  assumes "\<And>item. \<not> row_qualifies L H item"
  shows "foldl (loop_body L ok H) st items = st"
  by (induction items) (simp_all add: skip_unless_qualifies assms)

lemma first_normalized_row:
  "rows \<noteq> [] \<Longrightarrow> build_normalized_rows L rows ! 0 = normalize_row L (rows ! 0)"
  by (cases rows) (simp_all add: build_normalized_rows_def)

lemma run_rows_unqualified:
  assumes "\<And>item. \<not> row_qualifies L (choose_headers (build_normalized_rows L rows ! 0)) item"
  shows "run_rows L ok d rows = initial_state L d"
  unfolding run_rows_def Let_def by (rule loop_skips_all) (rule assms)

lemma main_unqualified:
  assumes "\<And>md section item. fetched e = Some md \<Longrightarrow>
     \<not> row_qualifies L (choose_headers (build_normalized_rows L (table_rows L md section) ! 0)) item"
  shows "events_of (main L e) = [] \<and> file_after (main L e) = disk e"
proof (cases "fetched e")
  case None
  then show ?thesis by (simp add: main_def Let_def)
next
  case (Some md)
  have "run_rows L ok d (table_rows L md sec) = initial_state L d" for ok d sec
    by (rule run_rows_unqualified) (rule assms[OF Some])
  then show ?thesis
    using Some by (simp add: main_def Let_def initial_state_def split: option.splits)
qed


lemma main_found_rows:
  assumes "truthy (webhook_env e)" "fetched e = Some md" "found_rows L md \<noteq> []"
  shows "main L e =
     \<lparr> status_of = Returned,
       file_after = on_disk (run_rows L (send_ok e) (disk e) (found_rows L md)),
       events_of = events (run_rows L (send_ok e) (disk e) (found_rows L md)) \<rparr>"
  using assms
  by (auto simp: main_def found_rows_def Let_def split: option.splits if_splits)

lemma has_header_iff:
  "has_header w rows \<longleftrightarrow> (\<exists>k\<in>set (keys (rows ! 0)). contains w (lower k))"
  by (simp add: has_header_def keys_def list_ex_iff)

text \<open>
  Claim C10. When no header of the extracted table holds \<^verbatim>\<open>location\<close>, or none holds
  \<^verbatim>\<open>age\<close>, in any case, the lookup of that column finds no header, the text of that
  column is empty for every row, no row passes the filters, and the run calls the webhook
  for no row and leaves the set and the file as they were.
\<close>

theorem missing_column_skips_all:
  fixes L ok d rows e md
  defines "H \<equiv> choose_headers (build_normalized_rows L rows ! 0)"
  defines "final \<equiv> run_rows L ok d rows"
  shows
  "(rows \<noteq> [] \<and> \<not> has_header ''location'' rows \<longrightarrow>
      location_header H = None \<and> get_opt item (location_header H) = []) \<and>
   (rows \<noteq> [] \<and> \<not> has_header ''age'' rows \<longrightarrow>
      age_header H = None \<and> get_opt item (age_header H) = []) \<and>
   (rows \<noteq> [] \<and> (\<not> has_header ''location'' rows \<or> \<not> has_header ''age'' rows) \<longrightarrow>
      \<not> row_qualifies L H item \<and> events final = [] \<and>
      notified final = load_notified L d \<and> on_disk final = d) \<and>
   (truthy (webhook_env e) \<and> fetched e = Some md \<and> found_rows L md \<noteq> [] \<and>
    (\<not> has_header ''location'' (found_rows L md) \<or> \<not> has_header ''age'' (found_rows L md)) \<longrightarrow>
      status_of (main L e) = Returned \<and> events_of (main L e) = [] \<and>
      file_after (main L e) = disk e)"
proof -
  have loc: "location_header (choose_headers (build_normalized_rows L rs ! 0)) = None"
    if "rs \<noteq> []" "\<not> has_header ''location'' rs" for rs
    using that no_location_header[of "rs ! 0" L]
    by (simp add: has_header_iff first_normalized_row)
  have age: "age_header (choose_headers (build_normalized_rows L rs ! 0)) = None"
    if "rs \<noteq> []" "\<not> has_header ''age'' rs" for rs
    using that no_age_header[of "rs ! 0" L]
    by (simp add: has_header_iff first_normalized_row)
  have none: "\<not> row_qualifies L (choose_headers (build_normalized_rows L rs ! 0)) it"
    if "rs \<noteq> []" "\<not> has_header ''location'' rs \<or> \<not> has_header ''age'' rs" for rs it
    using that loc[of rs] age[of rs] no_location_no_row no_age_no_row by blast
  have run: "run_rows L k f rs = initial_state L f"
    if "rs \<noteq> []" "\<not> has_header ''location'' rs \<or> \<not> has_header ''age'' rs" for rs k f
    by (rule run_rows_unqualified) (rule none[OF that])
  have one: "rows \<noteq> [] \<and> \<not> has_header ''location'' rows \<longrightarrow>
      location_header H = None \<and> get_opt item (location_header H) = []"
    unfolding H_def using loc[of rows] by (simp add: get_opt_def)
  have two: "rows \<noteq> [] \<and> \<not> has_header ''age'' rows \<longrightarrow>
      age_header H = None \<and> get_opt item (age_header H) = []"
    unfolding H_def using age[of rows] by (simp add: get_opt_def)
  have three: "rows \<noteq> [] \<and> (\<not> has_header ''location'' rows \<or> \<not> has_header ''age'' rows) \<longrightarrow>
      \<not> row_qualifies L H item \<and> events final = [] \<and>
      notified final = load_notified L d \<and> on_disk final = d"
    unfolding H_def final_def using none[of rows item] run[of rows ok d]
    by (auto simp: initial_state_def)
  have four: "truthy (webhook_env e) \<and> fetched e = Some md \<and> found_rows L md \<noteq> [] \<and>
    (\<not> has_header ''location'' (found_rows L md) \<or> \<not> has_header ''age'' (found_rows L md)) \<longrightarrow>
      status_of (main L e) = Returned \<and> events_of (main L e) = [] \<and>
      file_after (main L e) = disk e"
    using main_found_rows[of e md L] run[of "found_rows L md" "send_ok e" "disk e"]
    by (auto simp: initial_state_def)
  from one two three four show ?thesis by blast
qed

theorem missing_column_skips_all_witness:
  "found_rows plain_libs undated_doc = [undated_row] \<and>
   \<not> has_header ''age'' [undated_row] \<and>
   events (run_rows plain_libs (\<lambda>n. True) Missing [undated_row]) = [] \<and>
   on_disk (run_rows plain_libs (\<lambda>n. True) Missing [undated_row]) = Missing \<and>
   events_of (main plain_libs (run_env undated_doc Missing)) = [] \<and>
   file_after (main plain_libs (run_env undated_doc Missing)) = Missing"
proof -
  have f: "found_rows plain_libs undated_doc = [undated_row]" by code_simp
  have a: "\<not> has_header ''age'' [undated_row]" by code_simp
  have e: "truthy (webhook_env (run_env undated_doc Missing))"
    "fetched (run_env undated_doc Missing) = Some undated_doc"
    "disk (run_env undated_doc Missing) = Missing"
    by (simp_all add: run_env_def truthy_def)
  note t = missing_column_skips_all[of "[undated_row]" plain_libs _ "\<lambda>n. True" Missing
      "run_env undated_doc Missing" undated_doc]
  have "events (run_rows plain_libs (\<lambda>n. True) Missing [undated_row]) = [] \<and>
      on_disk (run_rows plain_libs (\<lambda>n. True) Missing [undated_row]) = Missing"
    using t a by blast
  moreover have "events_of (main plain_libs (run_env undated_doc Missing)) = [] \<and>
      file_after (main plain_libs (run_env undated_doc Missing)) =
        disk (run_env undated_doc Missing)"
    using t a e(1,2) unfolding f by blast
  ultimately show ?thesis using f a e(3) by simp
qed

subsection \<open>Runs over three documents\<close>

lemma orphan_rows: "found_rows plain_libs orphan_doc = [globex_row, toronto_row]"
  by code_simp

lemma orphan_run:
  "main plain_libs (run_env orphan_doc Missing) =
     \<lparr> status_of = Returned,
       file_after = Stored (JArray [JString (glyph @ ''|SWE Intern|Toronto, Canada'')]),
       events_of =
         [Sent (posting glyph ''SWE Intern'' ''Toronto, Canada'' None),
          Saved (Stored (JArray [JString (glyph @ ''|SWE Intern|Toronto, Canada'')]))] \<rparr>"
  by code_simp

lemma continuation_after_primary:
  assumes "company_of L H primary = c" "c \<noteq> []" "c \<noteq> glyph"
    and "current_link_of L H primary = Some u" "u \<noteq> []"
    and "company_of L H continuation = glyph" "\<not> truthy (current_link_of L H continuation)"
    and "r = resolve L H previous last_valid primary"
  shows "res_company (resolve L H (res_previous_company r) (res_last_valid_link r) continuation) = c"
    and "res_link (resolve L H (res_previous_company r) (res_last_valid_link r) continuation) = Some u"
    and "res_key (resolve L H (res_previous_company r) (res_last_valid_link r) continuation) =
      normalize_url L u"
  using assms
  by (simp_all add: resolve_def Let_def effective_company_def truthy_def py_or_def)

text \<open>
  Claim C2 fails on the code. The loop skips a row that fails a filter before it records
  the company and the link of the row, so a continuation row in Canada behind a primary
  row elsewhere is not attributed to that row; it is attributed to it when the primary
  row passed the filters itself (\<open>continuation_after_primary\<close>). In the run over
  \<^const>\<open>orphan_doc\<close> the table has the rows \<^const>\<open>globex_row\<close> and \<^const>\<open>toronto_row\<close>, and the
  one message names the continuation mark as the company and has no link.
\<close>

theorem continuation_of_skipped_row:
  "found_rows plain_libs orphan_doc = [globex_row, toronto_row] \<and>
   dispatched (events_of (main plain_libs (run_env orphan_doc Missing))) =
     [posting glyph ''SWE Intern'' ''Toronto, Canada'' None] \<and>
   file_after (main plain_libs (run_env orphan_doc Missing)) =
     Stored (JArray [JString (glyph @ ''|SWE Intern|Toronto, Canada'')])"
  unfolding orphan_run orphan_rows by (simp add: dispatched_def)

lemma linkless_rows: "found_rows plain_libs linkless_doc = [acme_row, initech_row]"
  by code_simp

lemma linkless_run:
  "main plain_libs (run_env linkless_doc Missing) =
     \<lparr> status_of = Returned,
       file_after = Stored (JArray [JString ''https://acme.example/jobs/1'']),
       events_of =
         [Sent (posting ''Acme'' ''SWE Intern'' ''Toronto, Canada''
                  (Some ''https://acme.example/jobs/1'')),
          Saved (Stored (JArray [JString ''https://acme.example/jobs/1'']))] \<rparr>"
  by code_simp

lemma linkless_key:
  "row_qualifies plain_libs acme_headers (normalize_row plain_libs initech_row) \<and>
   company_of plain_libs acme_headers (normalize_row plain_libs initech_row) = ''Initech'' \<and>
   current_link_of plain_libs acme_headers (normalize_row plain_libs initech_row) = None \<and>
   res_key (resolve plain_libs acme_headers (Some ''Acme'') (Some ''https://acme.example/jobs/1'')
              (normalize_row plain_libs initech_row)) = ''https://acme.example/jobs/1''"
  by code_simp

text \<open>
  Claim C3 fails on the code: \<^verbatim>\<open>link = current_link or last_valid_link\<close> is computed for
  every row, not only for continuation rows. In the run over \<^const>\<open>linkless_doc\<close> the
  second row is a primary row of another company without a link of its own; its key is the
  link of the first row, not the composite of company, role and location, so the row counts
  as notified and no message is sent for it.
\<close>

theorem linkless_primary_row_inherits:
  "found_rows plain_libs linkless_doc = [acme_row, initech_row] \<and>
   row_qualifies plain_libs acme_headers (normalize_row plain_libs initech_row) \<and>
   company_of plain_libs acme_headers (normalize_row plain_libs initech_row) = ''Initech'' \<and>
   current_link_of plain_libs acme_headers (normalize_row plain_libs initech_row) = None \<and>
   res_key (resolve plain_libs acme_headers (Some ''Acme'') (Some ''https://acme.example/jobs/1'')
              (normalize_row plain_libs initech_row)) = ''https://acme.example/jobs/1'' \<and>
   dispatched (events_of (main plain_libs (run_env linkless_doc Missing))) =
     [posting ''Acme'' ''SWE Intern'' ''Toronto, Canada'' (Some ''https://acme.example/jobs/1'')] \<and>
   file_after (main plain_libs (run_env linkless_doc Missing)) =
     Stored (JArray [JString ''https://acme.example/jobs/1''])"
  unfolding linkless_run linkless_rows using linkless_key by (simp add: dispatched_def)

lemma escaped_first_run:
  "main plain_libs (run_env escaped_doc Missing) =
     \<lparr> status_of = Returned,
       file_after = Stored (JArray [JString ''https://acme.example/j?a=1&b=2'']),
       events_of =
         [Sent (posting ''Acme'' ''SWE Intern'' ''Toronto, Canada''
                  (Some ''https://acme.example/j?a=1&amp;amp;b=2'')),
          Saved (Stored (JArray [JString ''https://acme.example/j?a=1&b=2'']))] \<rparr>"
  by code_simp

lemma escaped_second_run:
  "main plain_libs
     (run_env escaped_doc (Stored (JArray [JString ''https://acme.example/j?a=1&b=2'']))) =
     \<lparr> status_of = Returned,
       file_after =
         Stored (JArray [JString ''https://acme.example/j?a=1&b=2'',
                         JString ''https://acme.example/j?a=1&b=2'']),
       events_of =
         [Sent (posting ''Acme'' ''SWE Intern'' ''Toronto, Canada''
                  (Some ''https://acme.example/j?a=1&amp;amp;b=2'')),
          Saved (Stored (JArray [JString ''https://acme.example/j?a=1&b=2'',
                                 JString ''https://acme.example/j?a=1&b=2'']))] \<rparr>"
  by code_simp

text \<open>
  Claim C1 fails on the code. The key checked against the set is normalized once more
  when the set is saved and once more when it is loaded, and unescaping is not idempotent.
  In the first run over \<^const>\<open>escaped_doc\<close> every call of the webhook succeeds; the second
  run, over the same document and the file the first run left, sends the same message
  again.
\<close>

theorem second_run_notifies_again:
  "status_of (main plain_libs (run_env escaped_doc Missing)) = Returned \<and>
   attempted (events_of (main plain_libs (run_env escaped_doc Missing))) =
     dispatched (events_of (main plain_libs (run_env escaped_doc Missing))) \<and>
   dispatched (events_of (main plain_libs (run_env escaped_doc Missing))) =
     [posting ''Acme'' ''SWE Intern'' ''Toronto, Canada''
        (Some ''https://acme.example/j?a=1&amp;amp;b=2'')] \<and>
   dispatched (events_of (main plain_libs
     (run_env escaped_doc (file_after (main plain_libs (run_env escaped_doc Missing)))))) =
     [posting ''Acme'' ''SWE Intern'' ''Toronto, Canada''
        (Some ''https://acme.example/j?a=1&amp;amp;b=2'')]"
  unfolding escaped_first_run
  by (simp add: escaped_second_run dispatched_def attempted_def)

subsection \<open>A second run over the same document\<close>

lemma loop_body_context:
  assumes "row_qualifies L H item"
  shows "previous_company (loop_body L ok H st item) =
      res_previous_company (resolve L H (previous_company st) (last_valid_link st) item)"
    and "last_valid_link (loop_body L ok H st item) =
      res_last_valid_link (resolve L H (previous_company st) (last_valid_link st) item)"
  using assms by (simp_all add: loop_body_def row_qualifies_def Let_def)

lemma keys_notified:
  assumes ok: "\<And>n. ok n"
  shows "set (row_keys L H (previous_company st) (last_valid_link st) items) \<subseteq>
     set (notified (foldl (loop_body L ok H) st items))"
proof (induction items arbitrary: st)
  case Nil
  then show ?case by simp
next
  case (Cons item items)
  let ?st = "loop_body L ok H st item"
  let ?r = "resolve L H (previous_company st) (last_valid_link st) item"
  note mono = loop_mono[of ?st L ok H items]
  show ?case
  proof (cases rule: loop_body_cases[of L H item ok st])
    case skipped
    then show ?thesis using Cons.IH[of st] by simp
  next
    case known
    have "res_key ?r \<in> set (notified ?st)"
      using known loop_body_notified(1)[of L H item st ok] by simp
    with mono have "res_key ?r \<in> set (notified (foldl (loop_body L ok H) ?st items))" by blast
    then show ?thesis
      using known(1) Cons.IH[of ?st] loop_body_context[of L H item ok st] by simp
  next
    case sent
    have "res_key ?r \<in> set (notified ?st)"
      unfolding loop_body_sent(1)[of L H item st ok, OF sent] by (simp add: set_set_add)
    with mono have "res_key ?r \<in> set (notified (foldl (loop_body L ok H) ?st items))" by blast
    then show ?thesis
      using sent(1) Cons.IH[of ?st] loop_body_context[of L H item ok st] by simp
  next
    case failed
    with ok show ?thesis by simp
  qed
qed

lemma known_keys_silent:
  assumes "set (row_keys L H (previous_company st) (last_valid_link st) items) \<subseteq> set (notified st)"
  shows "events (foldl (loop_body L ok H) st items) = events st"
  using assms
proof (induction items arbitrary: st)
  case Nil
  then show ?case by simp
next
  case (Cons item items)
  let ?st = "loop_body L ok H st item"
  show ?case
  proof (cases "row_qualifies L H item")
    case False
    then show ?thesis using Cons by (simp add: skip_unless_qualifies)
  next
    case True
    with Cons.prems have k: "res_key (resolve L H (previous_company st) (last_valid_link st) item)
        \<in> set (notified st)"
      by simp
    note same = loop_body_notified[of L H item st ok, OF True k]
    have "set (row_keys L H (previous_company ?st) (last_valid_link ?st) items) \<subseteq> set (notified ?st)"
      using Cons.prems True unfolding same(1) loop_body_context[of L H item ok st, OF True]
      by simp
    then have "events (foldl (loop_body L ok H) ?st items) = events ?st" by (rule Cons.IH)
    then show ?thesis by (simp add: same(3))
  qed
qed

lemma second_run_rows_silent:
  assumes ok: "\<And>n. ok n"
    and stable: "\<forall>k\<in>set (table_keys L rows). normalize_url L (normalize_url L k) = k"
  shows "events (run_rows L ok' (on_disk (run_rows L ok d rows)) rows) = []"
proof -
  let ?H = "choose_headers (build_normalized_rows L rows ! 0)"
  let ?items = "build_normalized_rows L rows"
  let ?st1 = "run_rows L ok d rows"
  have first: "?st1 = foldl (loop_body L ok ?H) (initial_state L d) ?items"
    by (simp add: run_rows_def Let_def)
  have "set (row_keys L ?H (previous_company (initial_state L d))
      (last_valid_link (initial_state L d)) ?items) \<subseteq> set (notified ?st1)"
    unfolding first using ok by (rule keys_notified)
  then have keys: "set (table_keys L rows) \<subseteq> set (notified ?st1)"
    by (simp add: table_keys_def initial_state_def)
  have loaded: "set (table_keys L rows) \<subseteq> set (load_notified L (on_disk ?st1))"
  proof (cases "dispatched (events ?st1) = []")
    case True
    with settled_run_rows[of L d ok rows] have "on_disk ?st1 = d" "notified ?st1 = load_notified L d"
      by (simp_all add: settled_def)
    with keys show ?thesis by simp
  next
    case False
    with settled_run_rows[of L d ok rows] have "on_disk ?st1 = save_notified L (notified ?st1)"
      by (simp add: settled_def)
    then have "set (load_notified L (on_disk ?st1)) =
        normalize_url L ` normalize_url L ` set (notified ?st1)"
      by (simp add: load_save)
    moreover have "k \<in> normalize_url L ` normalize_url L ` set (notified ?st1)"
      if "k \<in> set (table_keys L rows)" for k
    proof -
      from that stable have "k = normalize_url L (normalize_url L k)" by simp
      moreover from that keys have "k \<in> set (notified ?st1)" by blast
      ultimately show ?thesis by blast
    qed
    ultimately show ?thesis by blast
  qed
  let ?init = "initial_state L (on_disk ?st1)"
  have "set (row_keys L ?H (previous_company ?init) (last_valid_link ?init) ?items) \<subseteq>
      set (notified ?init)"
    using loaded by (simp add: table_keys_def initial_state_def)
  then have "events (foldl (loop_body L ok' ?H) ?init ?items) = events ?init"
    by (rule known_keys_silent)
  then show ?thesis by (simp add: run_rows_def Let_def initial_state_def)
qed

lemma main_no_rows: "found_rows L md = [] \<Longrightarrow> fetched e = Some md \<Longrightarrow> events_of (main L e) = []"
  by (auto simp: main_def found_rows_def Let_def split: option.splits if_splits)

text \<open>
  The second run sends nothing whenever every call of the webhook succeeded in the first
  run and normalizing twice leaves every key of the document as it is.
\<close>

lemma second_run_silent_when_keys_stable:
  assumes "truthy (webhook_env e)" "fetched e = Some md" "\<And>n. send_ok e n"
    and "\<forall>k\<in>set (table_keys L (found_rows L md)). normalize_url L (normalize_url L k) = k"
  shows "events_of (main L (e\<lparr> disk := file_after (main L e), send_ok := ok' \<rparr>)) = []"
proof (cases "found_rows L md = []")
  case True
  then show ?thesis using assms(2) by (intro main_no_rows[of L md]) simp_all
next
  case False
  let ?e = "e\<lparr> disk := file_after (main L e), send_ok := ok' \<rparr>"
  have one: "file_after (main L e) = on_disk (run_rows L (send_ok e) (disk e) (found_rows L md))"
    using main_found_rows[OF assms(1,2) False] by simp
  have "events_of (main L ?e) =
      events (run_rows L (send_ok ?e) (disk ?e) (found_rows L md))"
    using main_found_rows[of ?e md L] assms(1,2) False by simp
  also have "\<dots> = events (run_rows L ok'
      (on_disk (run_rows L (send_ok e) (disk e) (found_rows L md))) (found_rows L md))"
    by (simp add: one)
  also have "\<dots> = []"
    using assms(3,4) by (intro second_run_rows_silent) simp_all
  finally show ?thesis .
qed

end
